theory Spec2Isabelle
  imports Main
begin

section \<open>The radio prompt of lib/prompts/radio.js\<close>

text \<open>
  A shallow embedding of \<^verbatim>\<open>RadioPrompt\<close>: the prompt object is a record, every method
  is a function from the prompt to the updated prompt, and a method that can throw
  returns a sum. What a method writes to the screen or gives to the completion callback
  is kept in the fields \<open>screen\<close> and \<open>delivered\<close> of the record. The collaborators the
  file imports and that are not part of it (chalk, figures, the paginator) are
  parameters, collected in the record \<open>env\<close>. Numbers are integers: the pointer and the
  indices given to \<^verbatim>\<open>setChoice\<close> and \<^verbatim>\<open>clearChoice\<close> may be negative or too large.
\<close>

subsection \<open>Choices\<close>

text \<open>
  The \<^verbatim>\<open>disabled\<close> property of a choice is read twice in radio.js: for its truth value
  (\<^verbatim>\<open>!choice.disabled\<close>, \<^verbatim>\<open>if (choice.disabled)\<close>) and for being a string
  (\<^verbatim>\<open>typeof choice.disabled === 'string'\<close>). In JavaScript the empty string is falsy.
\<close>

datatype jsdisabled = Undefined | Flag bool | Reason string

fun truthy :: "jsdisabled \<Rightarrow> bool" where
  "truthy Undefined = False"
| "truthy (Flag b) = b"
| "truthy (Reason r) = (r \<noteq> [])"

text \<open>
  One entry of the choice collection. radio.js tells a separator from a choice by
  \<^verbatim>\<open>choice.type === 'separator'\<close> and reads \<open>name\<close>, \<open>val\<close> (the property
  \<^verbatim>\<open>value\<close>), \<open>short\<close>, \<open>checked\<close> and \<open>disabled\<close>; a separator is printed through
  its string conversion, the field \<open>line\<close>. The field \<open>checked\<close> is the truth value of
  the property \<^verbatim>\<open>checked\<close>, which is all the file reads of it
  (\<^verbatim>\<open>Boolean(choice.checked)\<close>, \<^verbatim>\<open>!choice.checked\<close>, \<^verbatim>\<open>checked ? .. : ..\<close>).
  The position of an entry in the list \<open>choices\<close> stands for the identity of the object.
\<close>

record 'v choice =
  type :: string
  line :: string
  name :: string
  val :: 'v
  short :: string
  checked :: bool
  disabled :: jsdisabled

definition isSeparator :: "'v choice \<Rightarrow> bool" where
  "isSeparator c = (type c = ''separator'')"

text \<open>
  The class \<^verbatim>\<open>Choices\<close> (lib/objects/choices.js) is not among the sources. radio.js
  uses its arrays \<^verbatim>\<open>choices\<close> and \<^verbatim>\<open>realChoices\<close> (in \<^verbatim>\<open>removeAll\<close>), \<^verbatim>\<open>length\<close>,
  \<^verbatim>\<open>realLength\<close>, \<^verbatim>\<open>getChoice\<close>, \<^verbatim>\<open>indexOf\<close>, \<^verbatim>\<open>forEach\<close>, \<^verbatim>\<open>filter\<close> and
  \<^verbatim>\<open>reduce\<close>. Here the collection is the list \<open>choices\<close>, in display order, and what the
  class adds to it is modelled from the spec, as follows.
\<close>

text \<open>
  Modelled from the spec: which entries of \<^verbatim>\<open>Choices\<close> are real choices. The spec:
  "separators and disabled items are never checked and never receive pointer focus".
  It is also what \<^verbatim>\<open>renderChoices\<close> assumes when it subtracts the separators and the
  disabled entries seen so far from the position of a row before comparing it with the
  pointer (see \<open>fold_renderChoice\<close> below).
\<close>

definition isReal :: "'v choice \<Rightarrow> bool" where
  "isReal c = (\<not> isSeparator c \<and> \<not> truthy (disabled c))"

text \<open>
  Modelled from the spec: the array \<^verbatim>\<open>realChoices\<close> of \<^verbatim>\<open>Choices\<close>, as the positions of
  the real choices in \<open>choices\<close>, in order. Both arrays hold the same objects, so a
  change made through one is seen through the other.
\<close>

definition realChoices :: "'v choice list \<Rightarrow> nat list" where
  "realChoices cs = filter (\<lambda>k. isReal (cs ! k)) [0..<length cs]"

text \<open>
  Modelled from the spec: \<^verbatim>\<open>realLength\<close> of \<^verbatim>\<open>Choices\<close>, the "count of navigable
  items".
\<close>

definition realLength :: "'v choice list \<Rightarrow> int" where
  "realLength cs = int (length (realChoices cs))"

text \<open>
  Modelled from the spec: \<^verbatim>\<open>getChoice\<close> of \<^verbatim>\<open>Choices\<close>, the "index to Choice lookup"
  that "fails silently (returns undefined) on out-of-range lookup". The result is the
  position of the choice in \<open>choices\<close>, or \<open>None\<close> for \<^verbatim>\<open>undefined\<close>.
\<close>

definition getChoice :: "'v choice list \<Rightarrow> int \<Rightarrow> nat option" where
  "getChoice cs selector =
     (if 0 \<le> selector \<and> selector < realLength cs
      then Some (realChoices cs ! nat selector) else None)"

text \<open>
  Modelled from the spec: \<^verbatim>\<open>indexOf\<close> of \<^verbatim>\<open>Choices\<close>, the position of an object in
  \<open>choices\<close>, and \<open>-1\<close> for \<^verbatim>\<open>undefined\<close>, which is no member of the array.
\<close>

definition indexOf :: "'v choice list \<Rightarrow> nat option \<Rightarrow> int" where
  "indexOf cs item = (case item of None \<Rightarrow> - 1 | Some k \<Rightarrow> int k)"

subsection \<open>The prompt\<close>

datatype 'v jsdefault = NoDefault | Single 'v | Array "'v list"

text \<open>The options the caller passes: \<^verbatim>\<open>choices\<close> may be missing.\<close>

record 'v question =
  q_message :: string
  q_choices :: "'v choice list option"
  q_default :: "'v jsdefault"
  q_loop :: "bool option"
  q_pageSize :: "int option"

text \<open>\<^verbatim>\<open>this.opt\<close> once the prompt is built.\<close>

record 'v opt =
  choices :: "'v choice list"
  loop :: "bool option"
  pageSize :: "int option"

datatype status = pending | answered

datatype 'a jsresult = cancelString | Value 'a

text \<open>
  The fields of the prompt object. \<open>message\<close> is the text \<^verbatim>\<open>getQuestion()\<close> of the base
  class returns; \<open>screen\<close> is the last frame given to \<^verbatim>\<open>this.screen.render\<close>;
  \<open>delivered\<close> lists the values given to the completion callback \<^verbatim>\<open>this.done\<close>, the
  latest last; \<open>paginator\<close> is the object \<^verbatim>\<open>this.paginator\<close> the constructor creates,
  with all it remembers from one call of \<^verbatim>\<open>paginate\<close> to the next.
\<close>

record ('v, 'p) prompt =
  opt :: "'v opt"
  message :: string
  pointer :: int
  selected :: string
  selection :: "string list"
  status :: status
  dontShowHints :: bool
  screen :: "string \<times> string"
  delivered :: "'v list jsresult list"
  paginator :: 'p

datatype error = ParamError string | TypeError

subsection \<open>The selection state machine\<close>

text \<open>
  \<^verbatim>\<open>item.checked = b\<close> for the object at position \<open>item\<close>: the object is shared by
  \<^verbatim>\<open>choices\<close> and \<^verbatim>\<open>realChoices\<close>, and neither array changes its members.
\<close>

definition assignChecked :: "nat \<Rightarrow> bool \<Rightarrow> ('v, 'p) prompt \<Rightarrow> ('v, 'p) prompt" where
  "assignChecked item b s =
     s\<lparr>opt := (opt s)\<lparr>choices := (choices (opt s))[item := (choices (opt s) ! item)\<lparr>checked := b\<rparr>]\<rparr>\<rparr>"

definition setChoice :: "int \<Rightarrow> ('v, 'p) prompt \<Rightarrow> ('v, 'p) prompt" where
  "setChoice index s =
     (case getChoice (choices (opt s)) index of
        None \<Rightarrow> s
      | Some item \<Rightarrow> (assignChecked item True s)\<lparr>selected := name (choices (opt s) ! item)\<rparr>)"

definition clearChoice :: "int \<Rightarrow> ('v, 'p) prompt \<Rightarrow> ('v, 'p) prompt" where
  "clearChoice index s =
     (case getChoice (choices (opt s)) index of
        None \<Rightarrow> s
      | Some item \<Rightarrow>
          (let s1 = assignChecked item False s
           in if selected s1 = name (choices (opt s1) ! item) then s1\<lparr>selected := []\<rparr> else s1))"

text \<open>
  The loop of \<^verbatim>\<open>clearAllChoices\<close>, which reads \<^verbatim>\<open>realLength\<close> again at every turn:
  \<^verbatim>\<open>for (let i = 0; i < this.opt.choices.realLength; i++) this.clearChoice(i)\<close>.
\<close>

function clearLoop :: "nat \<Rightarrow> ('v, 'p) prompt \<Rightarrow> ('v, 'p) prompt" where
  "clearLoop i s =
     (if int i < realLength (choices (opt s)) then clearLoop (i + 1) (clearChoice (int i) s) else s)"
  by pat_completeness auto
termination
proof (relation "measure (\<lambda>(i, s). nat (realLength (choices (opt s))) - i)")
  show "wf (measure (\<lambda>(i, s :: ('v, 'p) prompt). nat (realLength (choices (opt s))) - i))"
    by simp
next
  fix i :: nat and s :: "('v, 'p) prompt"
  assume less: "int i < realLength (choices (opt s))"
  have same: "realChoices (cs[k := (cs ! k)\<lparr>checked := False\<rparr>]) = realChoices cs"
    for cs :: "'v choice list" and k
  proof -
    have "isReal (cs[k := (cs ! k)\<lparr>checked := False\<rparr>] ! j) = isReal (cs ! j)"
      if "j < length cs" for j
      using that by (cases "j = k") (simp_all add: isReal_def isSeparator_def)
    then have "filter (\<lambda>j. isReal (cs[k := (cs ! k)\<lparr>checked := False\<rparr>] ! j)) [0..<length cs]
        = filter (\<lambda>j. isReal (cs ! j)) [0..<length cs]"
      by (intro filter_cong) simp_all
    then show ?thesis
      by (simp add: realChoices_def)
  qed
  have "realLength (choices (opt (clearChoice (int i) s))) = realLength (choices (opt s))"
    by (simp add: clearChoice_def assignChecked_def realLength_def Let_def same
        split: option.splits)
  with less show "((i + 1, clearChoice (int i) s), (i, s))
      \<in> measure (\<lambda>(i, s). nat (realLength (choices (opt s))) - i)"
    by simp
qed

declare clearLoop.simps [simp del]

definition clearAllChoices :: "('v, 'p) prompt \<Rightarrow> ('v, 'p) prompt" where
  "clearAllChoices s = (clearLoop 0 s)\<lparr>selected := []\<rparr>"

definition getSelected :: "('v, 'p) prompt \<Rightarrow> string" where
  "getSelected s = selected s"

text \<open>
  \<^verbatim>\<open>getPointed\<close> reads \<^verbatim>\<open>.name\<close> of what \<^verbatim>\<open>getChoice\<close> returns: of
  \<^verbatim>\<open>undefined\<close> that is a TypeError.
\<close>

definition getPointed :: "('v, 'p) prompt \<Rightarrow> error + string" where
  "getPointed s =
     (if length (choices (opt s)) > 0
      then (case getChoice (choices (opt s)) (pointer s) of
              None \<Rightarrow> Inl TypeError
            | Some item \<Rightarrow> Inr (name (choices (opt s) ! item)))
      else Inr [])"

subsection \<open>Navigation\<close>

datatype dir = up | down

text \<open>
  Modelled from the spec: \<^verbatim>\<open>incrementListIndex\<close> (lib/utils/incrementListIndex.js) is not
  among the sources. The spec: "step the index by +-1, wrapping to the opposite end when
  loop is true and the boundary is crossed, clamping at the boundary (no movement) when
  loop is false", loop being true by default; "if the list contains only separators,
  return the original pointer unchanged". The pointer counts the real choices (the
  bound of \<^verbatim>\<open>clearAllChoices\<close>, the argument of \<^verbatim>\<open>getChoice\<close>), among which there is no
  separator to step over.
\<close>

definition incrementListIndex :: "int \<Rightarrow> dir \<Rightarrow> 'v opt \<Rightarrow> int" where
  "incrementListIndex current d ops =
     (let len = realLength (choices ops);
          shouldLoop = (case loop ops of None \<Rightarrow> True | Some b \<Rightarrow> b)
      in if len = 0 then current
         else (case d of
                 up \<Rightarrow> if current > 0 then current - 1
                       else if shouldLoop then len - 1 else current
               | down \<Rightarrow> if current < len - 1 then current + 1
                         else if shouldLoop then 0 else current))"

subsection \<open>Rendering\<close>

text \<open>
  What radio.js takes from chalk (the colour functions), from figures (three glyphs) and
  from the class \<^verbatim>\<open>Paginator\<close> (lib/utils/paginator.js), which is not among the sources.
  A paginator is an object of a type \<open>'p\<close> that is left open: \<open>newPaginator\<close> is
  \<^verbatim>\<open>new Paginator(this.screen, {isInfinite})\<close>, the screen being part of the environment,
  and \<open>paginate\<close> is the method \<^verbatim>\<open>paginate(output, active, pageSize)\<close>, which returns the
  visible window and may change what the object remembers.
\<close>

record 'p env =
  cyan :: "string \<Rightarrow> string"
  cyan_bold :: "string \<Rightarrow> string"
  green :: "string \<Rightarrow> string"
  red :: "string \<Rightarrow> string"
  figures_pointer :: string
  radioOn :: string
  radioOff :: string
  newPaginator :: "bool \<Rightarrow> 'p"
  paginate :: "'p \<Rightarrow> string \<Rightarrow> int \<Rightarrow> int option \<Rightarrow> string \<times> 'p"

definition newline :: string where
  "newline = [CHR 0x0A]"

definition getCheckbox :: "'p env \<Rightarrow> bool \<Rightarrow> string" where
  "getCheckbox env chk = (if chk then green env (radioOn env) else radioOff env)"

text \<open>
  The body of the \<^verbatim>\<open>forEach\<close> of \<^verbatim>\<open>renderChoices\<close>, on the row \<open>i\<close> and the pair
  of the variables \<^verbatim>\<open>output\<close> and \<^verbatim>\<open>separatorOffset\<close>.
\<close>

fun renderChoice :: "'p env \<Rightarrow> int \<Rightarrow> nat \<times> 'v choice \<Rightarrow> string \<times> nat \<Rightarrow> string \<times> nat" where
  "renderChoice env ptr (i, choice) (output, separatorOffset) =
     (if type choice = ''separator''
      then (output @ '' '' @ line choice @ newline, separatorOffset + 1)
      else if truthy (disabled choice)
      then (output @ '' - '' @ name choice
              @ '' ('' @ (case disabled choice of Reason r \<Rightarrow> r | _ \<Rightarrow> ''Disabled'') @ '')''
              @ newline,
            separatorOffset + 1)
      else (let row = getCheckbox env (checked choice) @ '' '' @ name choice
            in (output
                  @ (if int i - int separatorOffset = ptr
                     then cyan env (figures_pointer env @ row) else '' '' @ row)
                  @ newline,
                separatorOffset)))"

text \<open>\<^verbatim>\<open>output.replace(/\n$/, '')\<close>: a line feed that ends the string is removed.\<close>

definition stripFinalNewline :: "string \<Rightarrow> string" where
  "stripFinalNewline output =
     (if output \<noteq> [] \<and> last output = CHR 0x0A then butlast output else output)"

definition renderChoices :: "'p env \<Rightarrow> 'v choice list \<Rightarrow> int \<Rightarrow> string" where
  "renderChoices env cs ptr =
     stripFinalNewline (fst (fold (renderChoice env ptr) (enumerate 0 cs) ([], 0)))"

text \<open>
  The row \<^verbatim>\<open>renderChoices\<close> writes for one entry, given whether the pointer is on it:
  the three branches of the body of its \<^verbatim>\<open>forEach\<close>.
\<close>

definition renderRow :: "'p env \<Rightarrow> bool \<Rightarrow> 'v choice \<Rightarrow> string" where
  "renderRow env pointed choice =
     (if type choice = ''separator'' then '' '' @ line choice @ newline
      else if truthy (disabled choice)
      then '' - '' @ name choice
             @ '' ('' @ (case disabled choice of Reason r \<Rightarrow> r | _ \<Rightarrow> ''Disabled'') @ '')''
             @ newline
      else (if pointed
            then cyan env (figures_pointer env @ getCheckbox env (checked choice) @ '' '' @ name choice)
            else '' '' @ getCheckbox env (checked choice) @ '' '' @ name choice) @ newline)"

fun join :: "string \<Rightarrow> string list \<Rightarrow> string" where
  "join sep [] = []"
| "join sep [x] = x"
| "join sep (x # y # ys) = x @ sep @ join sep (y # ys)"

definition hint :: "'p env \<Rightarrow> string" where
  "hint env =
     newline @ ''(Press '' @ cyan_bold env ''<space>'' @ '' to select, ''
       @ cyan_bold env ''<enter>'' @ '' to proceed, ''
       @ cyan_bold env ''<backspace>'' @ '' to go back, or''
       @ '' leave no selection and press '' @ cyan_bold env ''<enter>'' @ '' to go back)''"

text \<open>
  The \<^verbatim>\<open>reduce\<close> of \<^verbatim>\<open>render\<close>: the lines taken by the rows up to the pointed one. A
  name is a string here, of \<^verbatim>\<open>l.split('\n').length\<close> lines.
\<close>

definition countLines :: "int \<Rightarrow> nat \<times> 'v choice \<Rightarrow> int \<Rightarrow> int" where
  "countLines indexPosition iv acc =
     (if int (fst iv) > indexPosition then acc
      else if type (snd iv) = ''separator'' then acc + 1
      else acc + int (Suc (length (filter (\<lambda>c. c = CHR 0x0A) (name (snd iv))))))"

definition realIndexPosition :: "'v choice list \<Rightarrow> int \<Rightarrow> int" where
  "realIndexPosition cs ptr =
     fold (countLines (indexOf cs (getChoice cs ptr))) (enumerate 0 cs) 0 - 1"

text \<open>
  \<^verbatim>\<open>render(error)\<close>: the frame is written to the screen. The argument is a message, or
  nothing (\<^verbatim>\<open>undefined\<close>, \<^verbatim>\<open>false\<close>); the empty string is falsy. While the prompt is
  not answered, the choices go through \<^verbatim>\<open>this.paginator.paginate\<close>, and the paginator is
  the one that call leaves.
\<close>

definition render :: "'p env \<Rightarrow> string option \<Rightarrow> ('v, 'p) prompt \<Rightarrow> ('v, 'p) prompt" where
  "render env err s =
     (let m1 = (if \<not> dontShowHints s then message s @ hint env else message s);
          (m2, pg) =
            (if status s = answered
             then (m1 @ cyan env (join '', '' (selection s)), paginator s)
             else (let choicesStr = renderChoices env (choices (opt s)) (pointer s);
                       (page, pg') = paginate env (paginator s) choicesStr
                                       (realIndexPosition (choices (opt s)) (pointer s))
                                       (pageSize (opt s))
                   in (m1 @ newline @ page, pg')));
          bottomContent = (case err of
                             None \<Rightarrow> []
                           | Some e \<Rightarrow> if e \<noteq> [] then red env ''>> '' @ e else [])
      in s\<lparr>screen := (m2, bottomContent), paginator := pg\<rparr>)"

subsection \<open>The session controller\<close>

text \<open>
  The constructor: without \<^verbatim>\<open>choices\<close> it throws; with an array as \<^verbatim>\<open>default\<close> it
  checks every choice whose value is in the array; it creates the paginator, infinite
  unless \<^verbatim>\<open>loop\<close> is given and false.
\<close>

definition RadioPrompt :: "'p env \<Rightarrow> 'v question \<Rightarrow> error + ('v, 'p) prompt" where
  "RadioPrompt env q =
     (case q_choices q of
        None \<Rightarrow> Inl (ParamError ''choices'')
      | Some cs \<Rightarrow>
          (let shouldLoop = (case q_loop q of None \<Rightarrow> True | Some b \<Rightarrow> b)
           in Inr \<lparr>opt = \<lparr>choices = (case q_default q of
                                      Array d \<Rightarrow>
                                        map (\<lambda>choice. if val choice \<in> set d
                                                       then choice\<lparr>checked := True\<rparr> else choice) cs
                                    | _ \<Rightarrow> cs),
                         loop = q_loop q, pageSize = q_pageSize q\<rparr>,
                  message = q_message q, pointer = 0, selected = [], selection = [],
                  status = pending, dontShowHints = False, screen = ([], []), delivered = [],
                  paginator = newPaginator env shouldLoop\<rparr>))"

definition onUpKey :: "'p env \<Rightarrow> ('v, 'p) prompt \<Rightarrow> ('v, 'p) prompt" where
  "onUpKey env s = render env None (s\<lparr>pointer := incrementListIndex (pointer s) up (opt s)\<rparr>)"

definition onDownKey :: "'p env \<Rightarrow> ('v, 'p) prompt \<Rightarrow> ('v, 'p) prompt" where
  "onDownKey env s = render env None (s\<lparr>pointer := incrementListIndex (pointer s) down (opt s)\<rparr>)"

definition onSpaceKey :: "'p env \<Rightarrow> ('v, 'p) prompt \<Rightarrow> ('v, 'p) prompt" where
  "onSpaceKey env s =
     (let s1 = clearAllChoices s; s2 = setChoice (pointer s1) s1 in render env None s2)"

definition onInverseKey :: "'p env \<Rightarrow> ('v, 'p) prompt \<Rightarrow> ('v, 'p) prompt" where
  "onInverseKey env s =
     render env None
       (s\<lparr>opt := (opt s)\<lparr>choices :=
            map (\<lambda>choice. if type choice \<noteq> ''separator''
                           then choice\<lparr>checked := \<not> checked choice\<rparr> else choice)
              (choices (opt s))\<rparr>\<rparr>)"

text \<open>
  \<^verbatim>\<open>getCurrentValue\<close> returns the values of the checked choices that are not disabled
  and stores their short labels in \<^verbatim>\<open>this.selection\<close>.
\<close>

definition getCurrentValue :: "('v, 'p) prompt \<Rightarrow> 'v list \<times> ('v, 'p) prompt" where
  "getCurrentValue s =
     (let chosen = filter (\<lambda>choice. checked choice \<and> \<not> truthy (disabled choice)) (choices (opt s))
      in (map val chosen, s\<lparr>selection := map short chosen\<rparr>))"

text \<open>
  \<^verbatim>\<open>onEnd(state)\<close>: the argument is \<^verbatim>\<open>undefined\<close> (\<open>None\<close>) or an object whose
  \<^verbatim>\<open>value\<close> is given. The calls \<^verbatim>\<open>this.screen.done()\<close> and \<^verbatim>\<open>cliCursor.show()\<close>
  leave the prompt as it is.
\<close>

definition onEnd :: "'p env \<Rightarrow> 'v list option \<Rightarrow> ('v, 'p) prompt \<Rightarrow> ('v, 'p) prompt" where
  "onEnd env state s =
     (let (s1, v) = (case state of
                       None \<Rightarrow> (s\<lparr>selection := []\<rparr>, cancelString)
                     | Some x \<Rightarrow> if length (selection s) = 0
                                then (s\<lparr>selection := []\<rparr>, cancelString)
                                else (s, Value x));
          s2 = render env None (s1\<lparr>status := answered, dontShowHints := True\<rparr>)
      in s2\<lparr>delivered := delivered s2 @ [v]\<rparr>)"

definition onError :: "'p env \<Rightarrow> string option \<Rightarrow> ('v, 'p) prompt \<Rightarrow> ('v, 'p) prompt" where
  "onError env isValid s = render env isValid s"

definition onBackspaceKeyKey :: "'p env \<Rightarrow> ('v, 'p) prompt \<Rightarrow> ('v, 'p) prompt" where
  "onBackspaceKeyKey env s = onEnd env None s"

text \<open>
  Modelled from the spec: \<^verbatim>\<open>handleSubmitEvents\<close> of the base class (lib/prompts/base.js)
  is not among the sources. \<^verbatim>\<open>_run\<close> feeds it every line event mapped through
  \<^verbatim>\<open>getCurrentValue\<close>, sends what it reports as a success to \<^verbatim>\<open>onEnd\<close> and what it
  reports as an error to \<^verbatim>\<open>onError\<close>. The spec: "an externally supplied validator
  rejects the current submission attempt; session stays active, error message is
  threaded into the next render", and of the validator "only pass/fail is consumed".
\<close>

datatype validation = Valid | Invalid "string option"

definition onLine :: "'p env \<Rightarrow> ('v list \<Rightarrow> validation) \<Rightarrow> ('v, 'p) prompt \<Rightarrow> ('v, 'p) prompt" where
  "onLine env validate s =
     (let (v, s1) = getCurrentValue s
      in case validate v of
           Valid \<Rightarrow> onEnd env (Some v) s1
         | Invalid isValid \<Rightarrow> onError env isValid s1)"

text \<open>
  \<^verbatim>\<open>removeAll\<close> empties both arrays; \<^verbatim>\<open>update\<close> then pushes the new entries, moves the
  pointer, selects an entry unless the index given is \<open>-1\<close>, and renders.
\<close>

definition removeAll :: "('v, 'p) prompt \<Rightarrow> ('v, 'p) prompt" where
  "removeAll s = s\<lparr>opt := (opt s)\<lparr>choices := []\<rparr>\<rparr>"

definition update :: "'p env \<Rightarrow> 'v choice list \<Rightarrow> int \<Rightarrow> int \<Rightarrow> ('v, 'p) prompt \<Rightarrow> ('v, 'p) prompt" where
  "update env values pointed sel s =
     (let s1 = removeAll s;
          s2 = s1\<lparr>opt := (opt s1)\<lparr>choices := choices (opt s1) @ values\<rparr>\<rparr>;
          s3 = s2\<lparr>pointer := pointed\<rparr>;
          s4 = (if sel \<noteq> - 1 then setChoice sel s3 else s3)
      in render env None s4)"

subsection \<open>Sessions\<close>

text \<open>The number of selectable (real) choices that are checked.\<close>

definition checkedCount :: "'v choice list \<Rightarrow> nat" where
  "checkedCount cs = length (filter (\<lambda>c. isReal c \<and> checked c) cs)"

text \<open>
  The operations that keep the radio invariant, and a session as the list of the
  operations applied, the first one first.
\<close>

datatype operation = Space | UpKey | DownKey | ClearChoice int | ClearAll

fun perform :: "'p env \<Rightarrow> operation \<Rightarrow> ('v, 'p) prompt \<Rightarrow> ('v, 'p) prompt" where
  "perform env Space s = onSpaceKey env s"
| "perform env UpKey s = onUpKey env s"
| "perform env DownKey s = onDownKey env s"
| "perform env (ClearChoice i) s = clearChoice i s"
| "perform env ClearAll s = clearAllChoices s"

subsection \<open>Concrete inputs\<close>

text \<open>
  A terminal without colours and without Unicode: chalk returns its argument, figures
  gives its ASCII glyphs, and the paginator, which is its flag \<^verbatim>\<open>isInfinite\<close> and nothing
  else, shows a list that fits the page as it is.
\<close>

definition plain :: "bool env" where
  "plain = \<lparr>cyan = (\<lambda>x. x), cyan_bold = (\<lambda>x. x), green = (\<lambda>x. x), red = (\<lambda>x. x),
            figures_pointer = ''>'', radioOn = ''(*)'', radioOff = ''( )'',
            newPaginator = (\<lambda>isInfinite. isInfinite),
            paginate = (\<lambda>pg output active size. (output, pg))\<rparr>"

text \<open>The choice object made of a name: the name is its value and its short label.\<close>

definition item :: "string \<Rightarrow> string choice" where
  "item n = \<lparr>type = [], line = [], name = n, val = n, short = n, checked = False,
             disabled = Undefined\<rparr>"

definition separator :: "string choice" where
  "separator = \<lparr>type = ''separator'', line = ''--------'', name = [], val = [], short = [],
                checked = False, disabled = Undefined\<rparr>"

definition prompt_of :: "string choice list \<Rightarrow> (string, bool) prompt" where
  "prompt_of cs =
     \<lparr>opt = \<lparr>choices = cs, loop = None, pageSize = None\<rparr>, message = ''Pick one'',
      pointer = 0, selected = [], selection = [], status = pending, dontShowHints = False,
      screen = ([], []), delivered = [], paginator = newPaginator plain True\<rparr>"

text \<open>A disabled choice whose value is in the array given as default.\<close>

definition disabledDefault :: "string question" where
  "disabledDefault =
     \<lparr>q_message = ''Pick one'',
      q_choices = Some [(item ''A'')\<lparr>disabled := Flag True\<rparr>, item ''B''],
      q_default = Array [''A''], q_loop = None, q_pageSize = None\<rparr>"

text \<open>Two choices, both named by the default array.\<close>

definition bothDefault :: "string question" where
  "bothDefault =
     \<lparr>q_message = ''Pick one'', q_choices = Some [item ''A'', item ''B''],
      q_default = Array [''A'', ''B''], q_loop = None, q_pageSize = None\<rparr>"

text \<open>The example of the spec: A is disabled, B and C are not.\<close>

definition disabledFirst :: "string choice list" where
  "disabledFirst = [(item ''A'')\<lparr>disabled := Flag True\<rparr>, item ''B'', item ''C'']"

text \<open>A prompt on the single choice A, checked.\<close>

definition checkedA :: "(string, bool) prompt" where
  "checkedA = prompt_of [(item ''A'')\<lparr>checked := True\<rparr>]"

section \<open>Properties\<close>

subsection \<open>The real choices under a change of a checked flag\<close>

lemma realChoices_update:
  assumes "isReal x = isReal (cs ! k)"
  shows "realChoices (cs[k := x]) = realChoices cs"
proof -
  have "isReal (cs[k := x] ! i) = isReal (cs ! i)" if "i < length cs" for i
    using that assms by (cases "i = k") simp_all
  then have "filter (\<lambda>i. isReal (cs[k := x] ! i)) [0..<length cs]
      = filter (\<lambda>i. isReal (cs ! i)) [0..<length cs]"
    by (intro filter_cong) simp_all
  then show ?thesis
    by (simp add: realChoices_def)
qed

lemma isReal_checked [simp]: "isReal (c\<lparr>checked := b\<rparr>) = isReal c"
  by (simp add: isReal_def isSeparator_def)

lemma realChoices_assignChecked [simp]:
  "realChoices (choices (opt (assignChecked k b s))) = realChoices (choices (opt s))"
  by (simp add: assignChecked_def realChoices_update)

lemma realLength_clearChoice [simp]:
  "realLength (choices (opt (clearChoice i s))) = realLength (choices (opt s))"
  by (simp add: clearChoice_def realLength_def Let_def split: option.splits)

lemma set_realChoices: "set (realChoices cs) = {k. k < length cs \<and> isReal (cs ! k)}"
  by (auto simp: realChoices_def)

lemma distinct_realChoices: "distinct (realChoices cs)"
  by (simp add: realChoices_def)

lemma map_nth_realChoices: "map ((!) cs) (realChoices cs) = filter isReal cs"
proof -
  have "filter isReal (map ((!) cs) [0..<length cs]) = map ((!) cs) (realChoices cs)"
    unfolding realChoices_def filter_map by (simp add: comp_def)
  then show ?thesis
    by (simp add: map_nth)
qed

lemma getChoice_Some:
  "getChoice cs i = Some k \<Longrightarrow> k < length cs \<and> isReal (cs ! k)"
proof -
  assume "getChoice cs i = Some k"
  then have "k \<in> set (realChoices cs)"
    by (auto simp: getChoice_def realLength_def split: if_splits)
  then show ?thesis
    by (simp add: set_realChoices)
qed

lemma choices_assignChecked [simp]:
  "choices (opt (assignChecked k b s)) = (choices (opt s))[k := (choices (opt s) ! k)\<lparr>checked := b\<rparr>]"
  by (simp add: assignChecked_def)

lemma getChoice_assignChecked [simp]:
  "getChoice (choices (opt (assignChecked k b s))) i = getChoice (choices (opt s)) i"
  by (simp add: getChoice_def realLength_def del: choices_assignChecked)

lemma choices_setChoice:
  "choices (opt (setChoice i s)) =
     (case getChoice (choices (opt s)) i of None \<Rightarrow> choices (opt s)
      | Some k \<Rightarrow> (choices (opt s))[k := (choices (opt s) ! k)\<lparr>checked := True\<rparr>])"
  by (simp add: setChoice_def split: option.splits)

lemma choices_clearChoice:
  "choices (opt (clearChoice i s)) =
     (case getChoice (choices (opt s)) i of None \<Rightarrow> choices (opt s)
      | Some k \<Rightarrow> (choices (opt s))[k := (choices (opt s) ! k)\<lparr>checked := False\<rparr>])"
  by (simp add: clearChoice_def Let_def split: option.splits)

lemma realChoices_clearChoice [simp]:
  "realChoices (choices (opt (clearChoice i s))) = realChoices (choices (opt s))"
  by (simp add: choices_clearChoice realChoices_update split: option.splits)

lemma realChoices_setChoice [simp]:
  "realChoices (choices (opt (setChoice i s))) = realChoices (choices (opt s))"
  by (simp add: choices_setChoice realChoices_update split: option.splits)

lemma clearChoice_frame:
  "pointer (clearChoice i s) = pointer s \<and> loop (opt (clearChoice i s)) = loop (opt s)
   \<and> pageSize (opt (clearChoice i s)) = pageSize (opt s) \<and> message (clearChoice i s) = message s
   \<and> selection (clearChoice i s) = selection s \<and> status (clearChoice i s) = status s
   \<and> dontShowHints (clearChoice i s) = dontShowHints s \<and> screen (clearChoice i s) = screen s
   \<and> delivered (clearChoice i s) = delivered s"
  by (simp add: clearChoice_def assignChecked_def Let_def split: option.splits)

lemma clearLoop_frame:
  "pointer (clearLoop i s) = pointer s \<and> loop (opt (clearLoop i s)) = loop (opt s)
   \<and> pageSize (opt (clearLoop i s)) = pageSize (opt s) \<and> message (clearLoop i s) = message s
   \<and> selection (clearLoop i s) = selection s \<and> status (clearLoop i s) = status s
   \<and> dontShowHints (clearLoop i s) = dontShowHints s \<and> screen (clearLoop i s) = screen s
   \<and> delivered (clearLoop i s) = delivered s"
proof (induction i s rule: clearLoop.induct)
  case (1 i s)
  show ?case
  proof (cases "int i < realLength (choices (opt s))")
    case True
    with 1 show ?thesis
      by (simp add: clearChoice_frame clearLoop.simps [of i s])
  next
    case False
    then show ?thesis by (simp add: clearLoop.simps [of i s])
  qed
qed

lemma realChoices_clearLoop [simp]:
  "realChoices (choices (opt (clearLoop i s))) = realChoices (choices (opt s))"
proof (induction i s rule: clearLoop.induct)
  case (1 i s)
  show ?case
  proof (cases "int i < realLength (choices (opt s))")
    case True
    with 1 show ?thesis by (simp add: clearLoop.simps [of i s])
  next
    case False
    then show ?thesis by (simp add: clearLoop.simps [of i s])
  qed
qed

lemma choices_clearLoop:
  "length (choices (opt (clearLoop i s))) = length (choices (opt s)) \<and>
   (\<forall>k < length (choices (opt s)).
      choices (opt (clearLoop i s)) ! k =
        (if k \<in> set (drop i (realChoices (choices (opt s))))
         then (choices (opt s) ! k)\<lparr>checked := False\<rparr> else choices (opt s) ! k))"
proof (induction i s rule: clearLoop.induct)
  case (1 i s)
  let ?cs = "choices (opt s)"
  let ?rc = "realChoices ?cs"
  show ?case
  proof (cases "int i < realLength ?cs")
    case False
    then have "drop i ?rc = []"
      by (simp add: realLength_def)
    with False show ?thesis by (simp add: clearLoop.simps [of i s])
  next
    case True
    then have i: "i < length ?rc"
      by (simp add: realLength_def)
    let ?r = "?rc ! i"
    let ?s1 = "clearChoice (int i) s"
    have g: "getChoice ?cs (int i) = Some ?r"
      using True by (simp add: getChoice_def)
    have cs1: "choices (opt ?s1) = ?cs[?r := (?cs ! ?r)\<lparr>checked := False\<rparr>]"
      by (simp add: choices_clearChoice g)
    have dr: "drop i ?rc = ?r # drop (Suc i) ?rc"
      using i by (simp add: Cons_nth_drop_Suc)
    have unf: "clearLoop i s = clearLoop (i + 1) ?s1"
      using True by (simp add: clearLoop.simps [of i s])
    from 1 [OF True]
    have ih: "length (choices (opt (clearLoop (i + 1) ?s1))) = length (choices (opt ?s1))"
      and ih2: "\<And>k. k < length (choices (opt ?s1)) \<Longrightarrow>
        choices (opt (clearLoop (i + 1) ?s1)) ! k =
          (if k \<in> set (drop (i + 1) ?rc)
           then (choices (opt ?s1) ! k)\<lparr>checked := False\<rparr> else choices (opt ?s1) ! k)"
      by simp_all
    have len: "length (choices (opt (clearLoop i s))) = length ?cs"
      unfolding unf ih by (simp add: cs1)
    have nth: "choices (opt (clearLoop i s)) ! k =
        (if k \<in> set (drop i ?rc) then (?cs ! k)\<lparr>checked := False\<rparr> else ?cs ! k)"
      if k: "k < length ?cs" for k
    proof -
      have "k < length (choices (opt ?s1))"
        using k by (simp add: cs1)
      from ih2 [OF this] show ?thesis
        unfolding unf dr cs1 using k by (cases "k = ?r") simp_all
    qed
    from len nth show ?thesis by blast
  qed
qed

subsection \<open>clearAllChoices\<close>

lemma choices_clearAllChoices:
  "choices (opt (clearAllChoices s)) =
     map (\<lambda>c. if isReal c then c\<lparr>checked := False\<rparr> else c) (choices (opt s))"
proof (rule nth_equalityI)
  show "length (choices (opt (clearAllChoices s))) =
      length (map (\<lambda>c. if isReal c then c\<lparr>checked := False\<rparr> else c) (choices (opt s)))"
    using choices_clearLoop [of 0 s] by (simp add: clearAllChoices_def)
next
  fix k
  assume "k < length (choices (opt (clearAllChoices s)))"
  then have k: "k < length (choices (opt s))"
    using choices_clearLoop [of 0 s] by (simp add: clearAllChoices_def)
  with choices_clearLoop [of 0 s]
  show "choices (opt (clearAllChoices s)) ! k =
      map (\<lambda>c. if isReal c then c\<lparr>checked := False\<rparr> else c) (choices (opt s)) ! k"
    by (simp add: clearAllChoices_def set_realChoices)
qed

lemma clearAllChoices_frame:
  "pointer (clearAllChoices s) = pointer s \<and> loop (opt (clearAllChoices s)) = loop (opt s)
   \<and> pageSize (opt (clearAllChoices s)) = pageSize (opt s)
   \<and> message (clearAllChoices s) = message s
   \<and> selection (clearAllChoices s) = selection s \<and> status (clearAllChoices s) = status s
   \<and> dontShowHints (clearAllChoices s) = dontShowHints s
   \<and> screen (clearAllChoices s) = screen s \<and> delivered (clearAllChoices s) = delivered s"
  using clearLoop_frame [of 0 s] by (simp add: clearAllChoices_def)

lemma realChoices_clearAllChoices [simp]:
  "realChoices (choices (opt (clearAllChoices s))) = realChoices (choices (opt s))"
  by (simp add: clearAllChoices_def)

text \<open>
  C5, as the code has it: after \<^verbatim>\<open>clearAllChoices\<close> the selected label is the empty
  string and every real choice (neither a separator nor disabled) is unchecked; the
  loop runs over the real choices only, so every other entry of the list, a checked
  disabled choice among them, is what it was.
\<close>

theorem clearAllChoices_clears_real:
  "selected (clearAllChoices s) = [] \<and>
   length (choices (opt (clearAllChoices s))) = length (choices (opt s)) \<and>
   (\<forall>k < length (choices (opt s)).
      choices (opt (clearAllChoices s)) ! k =
        (if isReal (choices (opt s) ! k)
         then (choices (opt s) ! k)\<lparr>checked := False\<rparr> else choices (opt s) ! k))"
  by (simp add: choices_clearAllChoices) (simp add: clearAllChoices_def)

theorem clearAllChoices_clears_real_witness:
  "selected (clearAllChoices (prompt_of [(item ''A'')\<lparr>checked := True\<rparr>, item ''B''])) = [] \<and>
   \<not> checked (choices (opt (clearAllChoices
        (prompt_of [(item ''A'')\<lparr>checked := True\<rparr>, item ''B'']))) ! 0)"
  using clearAllChoices_clears_real [of "prompt_of [(item ''A'')\<lparr>checked := True\<rparr>, item ''B'']"]
  by (simp add: prompt_of_def item_def isReal_def isSeparator_def)

text \<open>
  C5 as the spec states it fails: the prompt built from a disabled choice A whose value
  is in the default array has A checked, and A is still checked after
  \<^verbatim>\<open>clearAllChoices\<close>.
\<close>

theorem clearAllChoices_counterexample:
  "\<not> isl (RadioPrompt plain disabledDefault) \<and>
   length (choices (opt (clearAllChoices (projr (RadioPrompt plain disabledDefault))))) = 2 \<and>
   checked (choices (opt (clearAllChoices (projr (RadioPrompt plain disabledDefault)))) ! 0)"
  by (simp add: RadioPrompt_def disabledDefault_def choices_clearAllChoices item_def
      isReal_def isSeparator_def)

lemma realLength_le_length: "realLength cs \<le> int (length cs)"
proof -
  have "length (realChoices cs) \<le> length [0..<length cs]"
    unfolding realChoices_def by (rule length_filter_le)
  then show ?thesis
    by (simp add: realLength_def)
qed

lemma render_frame:
  "opt (render env err s) = opt s \<and> pointer (render env err s) = pointer s
   \<and> selected (render env err s) = selected s \<and> selection (render env err s) = selection s
   \<and> status (render env err s) = status s \<and> dontShowHints (render env err s) = dontShowHints s
   \<and> message (render env err s) = message s \<and> delivered (render env err s) = delivered s"
  by (simp add: render_def Let_def case_prod_beta)

lemma onInverseKey_choices:
  "choices (opt (onInverseKey env s)) =
     map (\<lambda>choice. if type choice \<noteq> ''separator''
                    then choice\<lparr>checked := \<not> checked choice\<rparr> else choice) (choices (opt s))"
  by (simp add: onInverseKey_def render_frame)

subsection \<open>Indices out of range\<close>

text \<open>
  C7: \<^verbatim>\<open>setChoice\<close> and \<^verbatim>\<open>clearChoice\<close> at an index that is negative or not below the
  number of real choices (so, in particular, at one not below the length of the list)
  return the prompt as it was: no checked flag and no selected label changes. Both are
  total functions of the prompt: nothing is thrown.
\<close>

theorem out_of_range_noop:
  "(i < 0 \<or> realLength (choices (opt s)) \<le> i \<longrightarrow> setChoice i s = s \<and> clearChoice i s = s) \<and>
   (i < 0 \<or> int (length (choices (opt s))) \<le> i \<longrightarrow> setChoice i s = s \<and> clearChoice i s = s)"
proof -
  have a: "setChoice i s = s \<and> clearChoice i s = s"
    if "i < 0 \<or> realLength (choices (opt s)) \<le> i"
  proof -
    from that have "getChoice (choices (opt s)) i = None"
      by (auto simp: getChoice_def)
    then show ?thesis
      by (simp add: setChoice_def clearChoice_def)
  qed
  have b: "i < 0 \<or> realLength (choices (opt s)) \<le> i"
    if "i < 0 \<or> int (length (choices (opt s))) \<le> i"
    using that realLength_le_length [of "choices (opt s)"] by linarith
  from a b show ?thesis by blast
qed

theorem out_of_range_noop_witness:
  "setChoice 2 (prompt_of [item ''A'', item ''B'']) = prompt_of [item ''A'', item ''B''] \<and>
   clearChoice 2 (prompt_of [item ''A'', item ''B'']) = prompt_of [item ''A'', item ''B''] \<and>
   setChoice (- 1) (prompt_of [item ''A'', item ''B'']) = prompt_of [item ''A'', item ''B''] \<and>
   clearChoice (- 1) (prompt_of [item ''A'', item ''B'']) = prompt_of [item ''A'', item ''B'']"
  using out_of_range_noop [of 2 "prompt_of [item ''A'', item ''B'']"]
    out_of_range_noop [of "- 1" "prompt_of [item ''A'', item ''B'']"]
  by (simp add: prompt_of_def)

subsection \<open>The inverse key\<close>

text \<open>
  C9: \<^verbatim>\<open>onInverseKey\<close> twice gives every choice the checked flag it had; the list of
  choices is the one before.
\<close>

theorem onInverseKey_involution:
  "choices (opt (onInverseKey env (onInverseKey env s))) = choices (opt s)"
  by (simp add: onInverseKey_choices comp_def map_idI)

theorem onInverseKey_involution_witness:
  "map checked (choices (opt (onInverseKey plain (onInverseKey plain
      (prompt_of [(item ''A'')\<lparr>checked := True\<rparr>, separator, item ''B''])))))
   = [True, False, False]"
  using onInverseKey_involution [of plain "prompt_of [(item ''A'')\<lparr>checked := True\<rparr>, separator, item ''B'']"]
  by (simp add: prompt_of_def item_def separator_def)

subsection \<open>getPointed\<close>

text \<open>
  C10: \<^verbatim>\<open>getPointed\<close> returns the empty string when the list of choices is empty; when
  it is not and the pointer is an index into the real choices, it returns the name of the
  real choice at the pointer.
\<close>

theorem getPointed_spec:
  "(choices (opt s) = [] \<longrightarrow> getPointed s = Inr []) \<and>
   (choices (opt s) \<noteq> [] \<and> 0 \<le> pointer s \<and> pointer s < realLength (choices (opt s)) \<longrightarrow>
      getPointed s = Inr (name (filter isReal (choices (opt s)) ! nat (pointer s))))"
proof -
  have "choices (opt s) ! (realChoices (choices (opt s)) ! nat (pointer s))
      = filter isReal (choices (opt s)) ! nat (pointer s)"
    if "0 \<le> pointer s" "pointer s < realLength (choices (opt s))"
  proof -
    from that have "nat (pointer s) < length (realChoices (choices (opt s)))"
      by (simp add: realLength_def)
    then have "map ((!) (choices (opt s))) (realChoices (choices (opt s))) ! nat (pointer s)
        = choices (opt s) ! (realChoices (choices (opt s)) ! nat (pointer s))"
      by (rule nth_map)
    then show ?thesis
      by (simp add: map_nth_realChoices)
  qed
  then show ?thesis
    by (simp add: getPointed_def getChoice_def)
qed

theorem getPointed_spec_witness:
  "getPointed (prompt_of []) = Inr [] \<and>
   getPointed ((prompt_of [separator, item ''A'', item ''B''])\<lparr>pointer := 1\<rparr>) = Inr ''B''"
  using getPointed_spec [of "prompt_of []"]
    getPointed_spec [of "(prompt_of [separator, item ''A'', item ''B''])\<lparr>pointer := 1\<rparr>"]
  by (simp add: prompt_of_def realLength_def realChoices_def isReal_def isSeparator_def
      item_def separator_def upt_rec)

subsection \<open>Backspace and submit\<close>

text \<open>
  C6: whatever the prompt, the backspace key ends the session as cancelled: the
  completion callback receives the cancel string, the status is \<open>answered\<close> and the
  selection is empty, whichever choices are checked.
\<close>

theorem backspace_cancels:
  "delivered (onBackspaceKeyKey env s) = delivered s @ [cancelString] \<and>
   status (onBackspaceKeyKey env s) = answered \<and> selection (onBackspaceKeyKey env s) = []"
  by (simp add: onBackspaceKeyKey_def onEnd_def render_frame)

theorem backspace_cancels_witness:
  "delivered (onBackspaceKeyKey plain (prompt_of [(item ''A'')\<lparr>checked := True\<rparr>, item ''B'']))
   = [cancelString]"
  using backspace_cancels [of plain "prompt_of [(item ''A'')\<lparr>checked := True\<rparr>, item ''B'']"]
  by (simp add: prompt_of_def)

lemma render_bottom:
  "snd (screen (render env err s)) =
     (case err of None \<Rightarrow> [] | Some e \<Rightarrow> if e \<noteq> [] then red env ''>> '' @ e else [])"
  by (simp add: render_def Let_def case_prod_beta)

text \<open>
  C1, as the code has it: a line event first goes through the validation. When no choice
  is both checked and not disabled and the validator accepts the (empty) answer, the cancel
  string is delivered instead of the empty list and the status is \<open>answered\<close>. When the
  validator rejects it, nothing is delivered, the status is what it was and the frame
  shows the validator's message as the error line. The empty list of answers is never
  what is delivered.
\<close>

theorem empty_submit_cancels:
  assumes "filter (\<lambda>choice. checked choice \<and> \<not> truthy (disabled choice)) (choices (opt s)) = []"
  shows "(validate [] = Valid \<longrightarrow>
            delivered (onLine env validate s) = delivered s @ [cancelString] \<and>
            status (onLine env validate s) = answered) \<and>
         (validate [] = Invalid e \<longrightarrow>
            delivered (onLine env validate s) = delivered s \<and>
            status (onLine env validate s) = status s \<and>
            snd (screen (onLine env validate s)) =
              (case e of None \<Rightarrow> [] | Some m \<Rightarrow> if m \<noteq> [] then red env ''>> '' @ m else []))"
  using assms
  by (simp add: onLine_def getCurrentValue_def onEnd_def onError_def render_frame render_bottom)

theorem empty_submit_cancels_witness:
  "delivered (onLine plain (\<lambda>v. Valid) (prompt_of [item ''A'', item ''B''])) = [cancelString] \<and>
   status (onLine plain (\<lambda>v. Valid) (prompt_of [item ''A'', item ''B''])) = answered \<and>
   delivered (onLine plain (\<lambda>v. Invalid None) (prompt_of [item ''A'', item ''B''])) = [] \<and>
   snd (screen (onLine plain (\<lambda>v. Invalid None) (prompt_of [item ''A'', item ''B'']))) = []"
  using empty_submit_cancels [where s = "prompt_of [item ''A'', item ''B'']"
        and validate = "\<lambda>v. Valid" and env = plain]
    empty_submit_cancels [where s = "prompt_of [item ''A'', item ''B'']"
        and validate = "\<lambda>v. Invalid None" and env = plain and e = None]
  by (simp add: prompt_of_def item_def)

text \<open>
  C1 as the spec states it fails: on the choices A and B with nothing checked, a line
  event whose (empty) answer the validator rejects with a message delivers nothing:
  the prompt stays pending and the frame shows the message.
\<close>

theorem empty_submit_counterexample:
  "filter (\<lambda>choice. checked choice \<and> \<not> truthy (disabled choice))
     (choices (opt (prompt_of [item ''A'', item ''B'']))) = [] \<and>
   delivered (onLine plain (\<lambda>v. Invalid (Some ''pick one'')) (prompt_of [item ''A'', item ''B''])) = [] \<and>
   status (onLine plain (\<lambda>v. Invalid (Some ''pick one'')) (prompt_of [item ''A'', item ''B'']))
     = pending \<and>
   snd (screen (onLine plain (\<lambda>v. Invalid (Some ''pick one'')) (prompt_of [item ''A'', item ''B''])))
     = ''>> pick one''"
  by (simp add: onLine_def getCurrentValue_def onError_def render_frame render_bottom
      prompt_of_def item_def plain_def)

subsection \<open>setChoice after setChoice\<close>

lemma getChoice_inj:
  assumes "getChoice cs i = Some a" and "getChoice cs j = Some a"
  shows "i = j"
proof -
  from assms have i: "0 \<le> i" "nat i < length (realChoices cs)" "realChoices cs ! nat i = a"
    and j: "0 \<le> j" "nat j < length (realChoices cs)" "realChoices cs ! nat j = a"
    by (auto simp: getChoice_def realLength_def split: if_splits)
  have "realChoices cs ! nat i = realChoices cs ! nat j"
    using i j by simp
  with nth_eq_iff_index_eq [OF distinct_realChoices i(2) j(2)] have "nat i = nat j"
    by simp
  with i j show ?thesis by simp
qed

lemma getChoice_cong:
  "realChoices cs = realChoices cs' \<Longrightarrow> getChoice cs i = getChoice cs' i"
  by (simp add: getChoice_def realLength_def)

lemma getChoice_setChoice [simp]:
  "getChoice (choices (opt (setChoice i s))) j = getChoice (choices (opt s)) j"
  by (rule getChoice_cong) simp

lemma getChoice_clearAllChoices [simp]:
  "getChoice (choices (opt (clearAllChoices s))) j = getChoice (choices (opt s)) j"
  by (rule getChoice_cong) simp

lemma setChoice_Some:
  assumes "getChoice (choices (opt s)) j = Some b"
  shows "choices (opt (setChoice j s)) = (choices (opt s))[b := (choices (opt s) ! b)\<lparr>checked := True\<rparr>]"
    and "selected (setChoice j s) = name (choices (opt s) ! b)"
  using assms by (simp_all add: setChoice_def assignChecked_def)

lemma length_choices_setChoice [simp]:
  "length (choices (opt (setChoice i s))) = length (choices (opt s))"
  by (simp add: choices_setChoice split: option.splits)

lemma length_choices_clearAllChoices [simp]:
  "length (choices (opt (clearAllChoices s))) = length (choices (opt s))"
  by (simp add: choices_clearAllChoices)

text \<open>
  C3, as the code has it: for distinct valid indices \<open>i\<close> and \<open>j\<close>, \<^verbatim>\<open>setChoice(i)\<close>
  followed by \<^verbatim>\<open>setChoice(j)\<close> leaves both choices checked, since \<^verbatim>\<open>setChoice\<close> clears
  nothing. When \<^verbatim>\<open>clearAllChoices\<close> runs before each \<^verbatim>\<open>setChoice\<close>, as the space key
  does, exactly one real choice is checked in the end, the one at \<open>j\<close>, and the selected
  label is its name.
\<close>

theorem setChoice_twice:
  assumes i: "getChoice (choices (opt s)) i = Some a"
    and j: "getChoice (choices (opt s)) j = Some b"
    and ne: "i \<noteq> j"
  shows "a \<noteq> b \<and>
    checked (choices (opt (setChoice j (setChoice i s))) ! a) \<and>
    checked (choices (opt (setChoice j (setChoice i s))) ! b) \<and>
    (\<forall>k < length (choices (opt s)). isReal (choices (opt s) ! k) \<longrightarrow>
       checked (choices (opt (setChoice j (clearAllChoices (setChoice i (clearAllChoices s))))) ! k)
         = (k = b)) \<and>
    selected (setChoice j (clearAllChoices (setChoice i (clearAllChoices s))))
      = name (choices (opt s) ! b)"
proof -
  let ?cs = "choices (opt s)"
  have ab: "a \<noteq> b"
    using getChoice_inj [of ?cs i a j] i j ne by blast
  have la: "a < length ?cs" and lb: "b < length ?cs" and rb: "isReal (?cs ! b)"
    using getChoice_Some [OF i] getChoice_Some [OF j] by simp_all
  have cs2: "choices (opt (setChoice j (setChoice i s)))
      = ?cs[a := (?cs ! a)\<lparr>checked := True\<rparr>, b := (?cs ! b)\<lparr>checked := True\<rparr>]"
  proof -
    have c1: "choices (opt (setChoice i s)) = ?cs[a := (?cs ! a)\<lparr>checked := True\<rparr>]"
      by (rule setChoice_Some(1) [OF i])
    have g1: "getChoice (choices (opt (setChoice i s))) j = Some b"
      by (simp add: j)
    show ?thesis
      unfolding setChoice_Some(1) [OF g1] c1 using ab by simp
  qed
  have both_a: "checked (choices (opt (setChoice j (setChoice i s))) ! a)"
    using ab la by (simp add: cs2)
  have both_b: "checked (choices (opt (setChoice j (setChoice i s))) ! b)"
    using lb by (simp add: cs2)
  let ?s3 = "clearAllChoices (setChoice i (clearAllChoices s))"
  have g3: "getChoice (choices (opt ?s3)) j = Some b"
    by (simp add: j)
  have l3: "length (choices (opt ?s3)) = length ?cs"
    by simp
  have g1: "getChoice (choices (opt (clearAllChoices s))) i = Some a"
    by (simp add: i)
  have n3: "choices (opt ?s3) ! k = (?cs ! k)\<lparr>checked := False\<rparr>"
    if "k < length ?cs" "isReal (?cs ! k)" for k
    using that
    by (cases "k = a")
      (simp_all add: choices_clearAllChoices [of "setChoice i (clearAllChoices s)"]
        setChoice_Some(1) [OF g1] choices_clearAllChoices [of s])
  have one: "\<forall>k < length ?cs. isReal (?cs ! k) \<longrightarrow>
      checked (choices (opt (setChoice j ?s3)) ! k) = (k = b)"
    using lb rb l3 n3 by (simp add: setChoice_Some [OF g3] nth_list_update)
  have label: "selected (setChoice j ?s3) = name (?cs ! b)"
    using lb rb l3 n3 by (simp add: setChoice_Some [OF g3])
  from ab both_a both_b one label show ?thesis
    by blast
qed

theorem setChoice_twice_witness:
  "\<not> checked (choices (opt (setChoice 1 (clearAllChoices (setChoice 0 (clearAllChoices
        (prompt_of [item ''A'', item ''B'']))))))  ! 0) \<and>
   checked (choices (opt (setChoice 1 (clearAllChoices (setChoice 0 (clearAllChoices
        (prompt_of [item ''A'', item ''B'']))))))  ! 1) \<and>
   selected (setChoice 1 (clearAllChoices (setChoice 0 (clearAllChoices
        (prompt_of [item ''A'', item ''B''])))))  = ''B''"
proof -
  have i: "getChoice (choices (opt (prompt_of [item ''A'', item ''B'']))) 0 = Some 0"
    by (simp add: getChoice_def realLength_def realChoices_def prompt_of_def item_def
        isReal_def isSeparator_def upt_rec)
  have j: "getChoice (choices (opt (prompt_of [item ''A'', item ''B'']))) 1 = Some 1"
    by (simp add: getChoice_def realLength_def realChoices_def prompt_of_def item_def
        isReal_def isSeparator_def upt_rec)
  from setChoice_twice [OF i j]
  have one: "\<forall>k < length (choices (opt (prompt_of [item ''A'', item ''B'']))).
      isReal (choices (opt (prompt_of [item ''A'', item ''B''])) ! k) \<longrightarrow>
      checked (choices (opt (setChoice 1 (clearAllChoices (setChoice 0 (clearAllChoices
        (prompt_of [item ''A'', item ''B''])))))) ! k) = (k = 1)"
    and label: "selected (setChoice 1 (clearAllChoices (setChoice 0 (clearAllChoices
        (prompt_of [item ''A'', item ''B''])))))
      = name (choices (opt (prompt_of [item ''A'', item ''B''])) ! 1)"
    by simp_all
  from one [rule_format, of 0] one [rule_format, of 1] label show ?thesis
    by (simp add: prompt_of_def item_def isReal_def isSeparator_def)
qed

text \<open>
  C3 as the spec states it fails: on the choices A and B, \<^verbatim>\<open>setChoice(0)\<close> and then
  \<^verbatim>\<open>setChoice(1)\<close> leave both checked.
\<close>

theorem setChoice_twice_counterexample:
  "getChoice (choices (opt (prompt_of [item ''A'', item ''B'']))) 0 = Some 0 \<and>
   getChoice (choices (opt (prompt_of [item ''A'', item ''B'']))) 1 = Some 1 \<and>
   map checked (choices (opt (setChoice 1 (setChoice 0 (prompt_of [item ''A'', item ''B'']))))) = [True, True]"
  by (simp add: setChoice_def assignChecked_def getChoice_def realLength_def realChoices_def
      prompt_of_def item_def isReal_def isSeparator_def upt_rec)

subsection \<open>The radio invariant\<close>

lemma length_filter_update:
  "b < length cs \<Longrightarrow>
   length (filter P (cs[b := y])) + (if P (cs ! b) then 1 else 0)
     = length (filter P cs) + (if P y then 1 else 0)"
proof (induction cs arbitrary: b)
  case Nil
  then show ?case by simp
next
  case (Cons c cs)
  then show ?case
    by (cases b) auto
qed

lemma checkedCount_update:
  "b < length cs \<Longrightarrow>
   checkedCount (cs[b := y]) + (if isReal (cs ! b) \<and> checked (cs ! b) then 1 else 0)
     = checkedCount cs + (if isReal y \<and> checked y then 1 else 0)"
  unfolding checkedCount_def by (rule length_filter_update)

lemma checkedCount_cleared:
  "checkedCount (map (\<lambda>c. if isReal c then c\<lparr>checked := False\<rparr> else c) cs) = 0"
  by (simp add: checkedCount_def filter_empty_conv)

lemma checkedCount_clearAllChoices [simp]:
  "checkedCount (choices (opt (clearAllChoices s))) = 0"
  by (simp only: choices_clearAllChoices checkedCount_cleared)

lemma checkedCount_clearChoice:
  "checkedCount (choices (opt (clearChoice i s))) \<le> checkedCount (choices (opt s))"
proof (cases "getChoice (choices (opt s)) i")
  case None
  then show ?thesis
    by (simp add: choices_clearChoice)
next
  case (Some b)
  then have "b < length (choices (opt s))"
    by (simp add: getChoice_Some)
  from checkedCount_update [OF this, of "(choices (opt s) ! b)\<lparr>checked := False\<rparr>"]
  show ?thesis
    by (simp add: choices_clearChoice Some split: if_splits)
qed

lemma checkedCount_setChoice:
  "checkedCount (choices (opt (setChoice i s))) \<le> Suc (checkedCount (choices (opt s)))"
proof (cases "getChoice (choices (opt s)) i")
  case None
  then show ?thesis
    by (simp add: choices_setChoice)
next
  case (Some b)
  then have "b < length (choices (opt s))"
    by (simp add: getChoice_Some)
  from checkedCount_update [OF this, of "(choices (opt s) ! b)\<lparr>checked := True\<rparr>"]
  show ?thesis
    by (simp add: choices_setChoice Some split: if_splits)
qed

lemma checkedCount_onSpaceKey: "checkedCount (choices (opt (onSpaceKey env s))) \<le> 1"
  using checkedCount_setChoice [of "pointer (clearAllChoices s)" "clearAllChoices s"]
  by (simp add: onSpaceKey_def Let_def render_frame)

lemma choices_onUpKey [simp]: "choices (opt (onUpKey env s)) = choices (opt s)"
  by (simp add: onUpKey_def render_frame)

lemma choices_onDownKey [simp]: "choices (opt (onDownKey env s)) = choices (opt s)"
  by (simp add: onDownKey_def render_frame)

lemma checkedCount_perform:
  "checkedCount (choices (opt s)) \<le> 1 \<Longrightarrow> checkedCount (choices (opt (perform env x s))) \<le> 1"
proof (cases x)
  case Space
  with checkedCount_onSpaceKey [of env s] show ?thesis by simp
next
  case (ClearChoice i)
  assume "checkedCount (choices (opt s)) \<le> 1"
  with checkedCount_clearChoice [of i s] ClearChoice show ?thesis by simp
qed simp_all

lemma checkedCount_fold:
  "checkedCount (choices (opt s)) \<le> 1 \<Longrightarrow>
   checkedCount (choices (opt (fold (perform env) ops s))) \<le> 1"
proof (induction ops arbitrary: s)
  case Nil
  then show ?case by simp
next
  case (Cons x ops)
  from Cons.prems have "checkedCount (choices (opt (perform env x s))) \<le> 1"
    by (rule checkedCount_perform)
  from Cons.IH [OF this] show ?case
    by simp
qed

lemma choices_RadioPrompt:
  assumes "RadioPrompt env q = Inr s" and "q_choices q = Some cs" and "\<forall>d. q_default q \<noteq> Array d"
  shows "choices (opt s) = cs"
  using assms by (cases "q_default q") (auto simp: RadioPrompt_def)

text \<open>
  C2, as the code has it: the space key, the up and down keys, \<^verbatim>\<open>clearChoice\<close> and
  \<^verbatim>\<open>clearAllChoices\<close> keep the invariant that at most one selectable choice is checked:
  it holds in every state they lead to from one in which it holds, and so in every state
  they lead to from a prompt constructed, without an array as default, on choices of
  which at most one is checked.
\<close>

theorem radio_invariant:
  "(checkedCount (choices (opt s)) \<le> 1 \<longrightarrow>
      checkedCount (choices (opt (fold (perform env) ops s))) \<le> 1) \<and>
   (RadioPrompt env q = Inr s \<and> q_choices q = Some cs \<and> (\<forall>d. q_default q \<noteq> Array d) \<and>
    checkedCount cs \<le> 1 \<longrightarrow>
      checkedCount (choices (opt (fold (perform env) ops s))) \<le> 1)"
  using checkedCount_fold [of s env ops] choices_RadioPrompt [of env q s cs] by blast

theorem radio_invariant_witness:
  "checkedCount (choices (opt (prompt_of [(item ''A'')\<lparr>checked := True\<rparr>, item ''B'']))) \<le> 1 \<and>
   checkedCount (choices (opt (fold (perform plain) [DownKey, Space, UpKey, ClearChoice 1, Space]
      (prompt_of [(item ''A'')\<lparr>checked := True\<rparr>, item ''B''])))) \<le> 1 \<and>
   map checked (choices (opt (fold (perform plain) [DownKey, Space, ClearChoice 0]
      (prompt_of [(item ''A'')\<lparr>checked := True\<rparr>, item ''B''])))) = [False, True]"
proof -
  have h: "checkedCount (choices (opt (prompt_of [(item ''A'')\<lparr>checked := True\<rparr>, item ''B'']))) \<le> 1"
    by (simp add: prompt_of_def checkedCount_def item_def isReal_def isSeparator_def)
  have e: "map checked (choices (opt (fold (perform plain) [DownKey, Space, ClearChoice 0]
      (prompt_of [(item ''A'')\<lparr>checked := True\<rparr>, item ''B''])))) = [False, True]"
    by code_simp
  from h e radio_invariant [of "prompt_of [(item ''A'')\<lparr>checked := True\<rparr>, item ''B'']" plain
      "[DownKey, Space, UpKey, ClearChoice 1, Space]"]
  show ?thesis by blast
qed

text \<open>
  C2 as the spec states it fails: the constructor checks every choice named in the default
  array, here two of them, and the inverse key on a prompt with nothing checked checks
  both choices.
\<close>

theorem radio_invariant_counterexample:
  "\<not> isl (RadioPrompt plain bothDefault) \<and>
   checkedCount (choices (opt (projr (RadioPrompt plain bothDefault)))) = 2 \<and>
   checkedCount (choices (opt (prompt_of [item ''A'', item ''B'']))) = 0 \<and>
   checkedCount (choices (opt (onInverseKey plain (prompt_of [item ''A'', item ''B''])))) = 2"
  by (simp add: RadioPrompt_def bothDefault_def checkedCount_def onInverseKey_choices
      prompt_of_def item_def isReal_def isSeparator_def)

subsection \<open>Rendering\<close>

lemma paginator_RadioPrompt:
  "RadioPrompt env q = Inr s \<Longrightarrow>
   paginator s = newPaginator env (case q_loop q of None \<Rightarrow> True | Some b \<Rightarrow> b)"
  by (auto simp: RadioPrompt_def Let_def split: option.splits)

text \<open>
  C8, as the code has it: the frame \<^verbatim>\<open>render\<close> writes is a function of the list of
  choices, the pointer, the status, the flag \<^verbatim>\<open>dontShowHints\<close>, the selection, the
  question text, the page size, the error message given to it and the paginator of the
  prompt, which the constructor makes infinite or not from \<^verbatim>\<open>loop\<close> and which every call
  of \<^verbatim>\<open>paginate\<close> may change. Two calls that agree on these write the same two strings
  and leave the same paginator, whatever the other fields of the prompt are.
\<close>

theorem render_function_of:
  assumes "choices (opt s) = choices (opt s')" and "pointer s = pointer s'"
    and "status s = status s'" and "dontShowHints s = dontShowHints s'"
    and "selection s = selection s'" and "message s = message s'"
    and "pageSize (opt s) = pageSize (opt s')" and "paginator s = paginator s'"
  shows "screen (render env err s) = screen (render env err s') \<and>
         paginator (render env err s) = paginator (render env err s')"
  using assms by (simp add: render_def Let_def case_prod_beta)

theorem render_function_of_witness:
  "screen (render plain (Some ''no'') (prompt_of [item ''A'', item ''B'']))
     = screen (render plain (Some ''no'')
         ((prompt_of [item ''A'', item ''B''])
            \<lparr>opt := (opt (prompt_of [item ''A'', item ''B'']))\<lparr>loop := Some False\<rparr>,
             selected := ''A'', delivered := [cancelString]\<rparr>)) \<and>
   screen (render plain (Some ''no'') (prompt_of [item ''A'', item ''B'']))
     = (''Pick one'' @ hint plain @ newline @ ''>( ) A'' @ newline @ '' ( ) B'', ''>> no'')"
proof -
  have frame: "screen (render plain (Some ''no'') (prompt_of [item ''A'', item ''B'']))
      = (''Pick one'' @ hint plain @ newline @ ''>( ) A'' @ newline @ '' ( ) B'', ''>> no'')"
    by code_simp
  from frame render_function_of [of "prompt_of [item ''A'', item ''B'']"
      "(prompt_of [item ''A'', item ''B''])
         \<lparr>opt := (opt (prompt_of [item ''A'', item ''B'']))\<lparr>loop := Some False\<rparr>,
          selected := ''A'', delivered := [cancelString]\<rparr>"
      plain "Some ''no''"]
  show ?thesis
    by (simp add: prompt_of_def)
qed

text \<open>
  C8 as the spec states it fails: from the list with A checked, \<^verbatim>\<open>onEnd\<close> after
  \<^verbatim>\<open>getCurrentValue\<close> (a submitted line) and the backspace key lead to the same list, the
  same pointer, the same status \<open>answered\<close> and the same paginator, and \<^verbatim>\<open>render\<close> writes
  the answer A in the first state and no answer in the second.
\<close>

theorem render_counterexample:
  "choices (opt (onEnd plain (Some (fst (getCurrentValue checkedA))) (snd (getCurrentValue checkedA))))
     = choices (opt (onBackspaceKeyKey plain checkedA)) \<and>
   pointer (onEnd plain (Some (fst (getCurrentValue checkedA))) (snd (getCurrentValue checkedA)))
     = pointer (onBackspaceKeyKey plain checkedA) \<and>
   status (onEnd plain (Some (fst (getCurrentValue checkedA))) (snd (getCurrentValue checkedA)))
     = status (onBackspaceKeyKey plain checkedA) \<and>
   paginator (onEnd plain (Some (fst (getCurrentValue checkedA))) (snd (getCurrentValue checkedA)))
     = paginator (onBackspaceKeyKey plain checkedA) \<and>
   screen (render plain None
       (onEnd plain (Some (fst (getCurrentValue checkedA))) (snd (getCurrentValue checkedA))))
     = (''Pick oneA'', []) \<and>
   screen (render plain None (onBackspaceKeyKey plain checkedA)) = (''Pick one'', []) \<and>
   screen (render plain None
       (onEnd plain (Some (fst (getCurrentValue checkedA))) (snd (getCurrentValue checkedA))))
     \<noteq> screen (render plain None (onBackspaceKeyKey plain checkedA))"
  by (simp add: checkedA_def getCurrentValue_def onEnd_def onBackspaceKeyKey_def render_def
      Let_def prompt_of_def item_def plain_def)

subsection \<open>The pointer\<close>

lemma incrementListIndex_valid:
  assumes "0 \<le> p" and "p < realLength (choices ops)"
  shows "0 \<le> incrementListIndex p d ops \<and> incrementListIndex p d ops < realLength (choices ops)"
  using assms by (cases d) (auto simp: incrementListIndex_def Let_def split: option.splits)

text \<open>
  The pointer of \<^verbatim>\<open>renderChoices\<close> is the index of \<^verbatim>\<open>getChoice\<close>: the row written with
  the pointer glyph is the row of the choice \<^verbatim>\<open>getChoice(pointer)\<close> returns, and
  \<^verbatim>\<open>separatorOffset\<close> ends as the number of entries that are not real choices.
\<close>

lemma realChoices_snoc:
  "realChoices (cs @ [c]) = realChoices cs @ (if isReal c then [length cs] else [])"
proof -
  have "filter (\<lambda>k. isReal ((cs @ [c]) ! k)) [0..<length cs]
      = filter (\<lambda>k. isReal (cs ! k)) [0..<length cs]"
    by (intro filter_cong) (simp_all add: nth_append)
  then show ?thesis
    by (simp add: realChoices_def)
qed

lemma length_realChoices_le: "length (realChoices cs) \<le> length cs"
  using realLength_le_length [of cs] by (simp add: realLength_def)

lemma realChoices_less: "p < length (realChoices cs) \<Longrightarrow> realChoices cs ! p < length cs"
  using set_realChoices [of cs] nth_mem [of p "realChoices cs"] by auto

lemma getChoice_snoc_old:
  "i < length cs \<Longrightarrow> (getChoice (cs @ [c]) ptr = Some i) = (getChoice cs ptr = Some i)"
  using realChoices_less [of "nat ptr" cs]
  by (auto simp: getChoice_def realLength_def realChoices_snoc nth_append)

lemma getChoice_snoc_new:
  "(getChoice (cs @ [c]) ptr = Some (length cs)) = (isReal c \<and> ptr = realLength cs)"
  using realChoices_less [of "nat ptr" cs]
  by (auto simp: getChoice_def realLength_def realChoices_snoc nth_append)

lemma fold_renderChoice:
  "fold (renderChoice env ptr) (enumerate 0 cs) ([], 0)
     = (concat (map (\<lambda>i. renderRow env (getChoice cs ptr = Some i) (cs ! i)) [0..<length cs]),
        length cs - length (realChoices cs))"
proof (induction cs rule: rev_induct)
  case Nil
  then show ?case by simp
next
  case (snoc c cs)
  let ?n = "length cs" and ?r = "length (realChoices cs)"
  have le: "?r \<le> ?n"
    by (rule length_realChoices_le)
  have old: "map (\<lambda>i. renderRow env (getChoice (cs @ [c]) ptr = Some i) ((cs @ [c]) ! i)) [0..<?n]
      = map (\<lambda>i. renderRow env (getChoice cs ptr = Some i) (cs ! i)) [0..<?n]"
    by (intro map_cong) (simp_all add: getChoice_snoc_old nth_append)
  have step: "fold (renderChoice env ptr) (enumerate 0 (cs @ [c])) ([], 0)
      = renderChoice env ptr (?n, c) (fold (renderChoice env ptr) (enumerate 0 cs) ([], 0))"
    by (simp add: enumerate_append_eq)
  have rhs: "concat (map (\<lambda>i. renderRow env (getChoice (cs @ [c]) ptr = Some i) ((cs @ [c]) ! i))
        [0..<length (cs @ [c])])
      = concat (map (\<lambda>i. renderRow env (getChoice cs ptr = Some i) (cs ! i)) [0..<?n])
          @ renderRow env (isReal c \<and> ptr = realLength cs) c"
    by (simp add: old getChoice_snoc_new)
  have lhs: "renderChoice env ptr (?n, c) (out, ?n - ?r)
      = (out @ renderRow env (isReal c \<and> ptr = realLength cs) c,
         length (cs @ [c]) - length (realChoices (cs @ [c])))" for out
    using le
    by (auto simp: renderRow_def isReal_def isSeparator_def realChoices_snoc Suc_diff_le
        Let_def realLength_def)
  show ?case
    unfolding step snoc.IH lhs rhs ..
qed

lemma renderChoices_rows:
  "renderChoices env cs ptr =
     stripFinalNewline
       (concat (map (\<lambda>i. renderRow env (getChoice cs ptr = Some i) (cs ! i)) [0..<length cs]))"
  by (simp add: renderChoices_def fold_renderChoice)

text \<open>
  C4, as the code has it: the pointer counts the choices that are neither a separator
  nor disabled. Whatever the pointer is, \<^verbatim>\<open>renderChoices\<close> renders as pointed the row of
  the choice \<^verbatim>\<open>getChoice(pointer)\<close> returns and no other, and that choice is never a
  separator and never disabled. From a pointer on a real choice, the up key and the down
  key lead to a pointer on a real choice.
\<close>

theorem pointer_rests_on_real:
  "renderChoices env cs p =
     stripFinalNewline
       (concat (map (\<lambda>i. renderRow env (getChoice cs p = Some i) (cs ! i)) [0..<length cs])) \<and>
   (getChoice cs p = Some i \<longrightarrow>
      i < length cs \<and> \<not> isSeparator (cs ! i) \<and> \<not> truthy (disabled (cs ! i))) \<and>
   (0 \<le> pointer s \<and> pointer s < realLength (choices (opt s)) \<longrightarrow>
      (\<exists>k. getChoice (choices (opt s)) (pointer (onUpKey env s)) = Some k) \<and>
      (\<exists>k. getChoice (choices (opt s)) (pointer (onDownKey env s)) = Some k))"
proof -
  have real: "i < length cs \<and> \<not> isSeparator (cs ! i) \<and> \<not> truthy (disabled (cs ! i))"
    if "getChoice cs p = Some i"
    using getChoice_Some [OF that] by (simp add: isReal_def)
  have move: "(\<exists>k. getChoice (choices (opt s)) (pointer (onUpKey env s)) = Some k) \<and>
      (\<exists>k. getChoice (choices (opt s)) (pointer (onDownKey env s)) = Some k)"
    if valid: "0 \<le> pointer s" "pointer s < realLength (choices (opt s))"
  proof -
    have up: "pointer (onUpKey env s) = incrementListIndex (pointer s) up (opt s)"
      by (simp add: onUpKey_def render_frame)
    have dn: "pointer (onDownKey env s) = incrementListIndex (pointer s) down (opt s)"
      by (simp add: onDownKey_def render_frame)
    from incrementListIndex_valid [OF valid, of up] incrementListIndex_valid [OF valid, of down]
    show ?thesis
      unfolding up dn by (simp add: getChoice_def)
  qed
  from real move show ?thesis
    by (simp add: renderChoices_rows)
qed

theorem pointer_rests_on_real_witness:
  "getChoice disabledFirst 0 = Some 1 \<and>
   \<not> isSeparator (disabledFirst ! 1) \<and> \<not> truthy (disabled (disabledFirst ! 1)) \<and>
   0 \<le> pointer ((prompt_of disabledFirst)\<lparr>pointer := 1\<rparr>) \<and>
   pointer ((prompt_of disabledFirst)\<lparr>pointer := 1\<rparr>) < realLength disabledFirst \<and>
   (\<exists>k. getChoice disabledFirst (pointer (onUpKey plain ((prompt_of disabledFirst)\<lparr>pointer := 1\<rparr>)))
          = Some k)"
proof -
  have g: "getChoice disabledFirst 0 = Some 1"
    by (simp add: getChoice_def realLength_def realChoices_def disabledFirst_def item_def
        isReal_def isSeparator_def upt_rec)
  have h1: "0 \<le> pointer ((prompt_of disabledFirst)\<lparr>pointer := 1\<rparr>)"
    by simp
  have h2: "pointer ((prompt_of disabledFirst)\<lparr>pointer := 1\<rparr>) < realLength disabledFirst"
    by (simp add: realLength_def realChoices_def disabledFirst_def item_def
        isReal_def isSeparator_def upt_rec)
  have cs: "choices (opt ((prompt_of disabledFirst)\<lparr>pointer := 1\<rparr>)) = disabledFirst"
    by (simp add: prompt_of_def)
  from pointer_rests_on_real [of plain disabledFirst 0 1 "(prompt_of disabledFirst)\<lparr>pointer := 1\<rparr>"]
    g h1 h2
  show ?thesis
    unfolding cs by blast
qed

text \<open>
  C4 as the spec states it fails: on the choices A (disabled), B and C with the pointer
  at 1, the up key gives the pointer 0, and the choice at the pointer 0 is B: B is what
  \<^verbatim>\<open>getPointed\<close> returns and B's row is the one rendered with the pointer glyph, while the
  row of A is rendered as disabled.
\<close>

theorem pointer_counterexample:
  "pointer (onUpKey plain ((prompt_of disabledFirst)\<lparr>pointer := 1\<rparr>)) = 0 \<and>
   getPointed (onUpKey plain ((prompt_of disabledFirst)\<lparr>pointer := 1\<rparr>)) = Inr ''B'' \<and>
   renderChoices plain disabledFirst 0
     = '' - A (Disabled)'' @ newline @ ''>( ) B'' @ newline @ '' ( ) C'' \<and>
   renderChoices plain disabledFirst 1
     = '' - A (Disabled)'' @ newline @ '' ( ) B'' @ newline @ ''>( ) C''"
  by (simp add: onUpKey_def render_frame incrementListIndex_def getPointed_def getChoice_def
      realLength_def realChoices_def prompt_of_def disabledFirst_def item_def isReal_def
      isSeparator_def upt_rec renderChoices_def enumerate_eq_zip stripFinalNewline_def
      newline_def getCheckbox_def plain_def)

end
